theory Spec2Isabelle
  imports Complex_Main "HOL-Library.Multiset"
begin

section \<open>Factors behind shared pointers\<close>

text \<open>
  The container of \<^verbatim>\<open>gtsam/hybrid/HybridFactorGraph.h\<close> stores
  \<^verbatim>\<open>boost::shared_ptr\<close>s to factor objects and asks each object, at run time, which
  interfaces it implements (\<^verbatim>\<open>boost::dynamic_pointer_cast\<close>). A stored pointer is modelled
  by the address of the object together with what the casts of the source can observe:
  whether the object is a \<^verbatim>\<open>DiscreteFactor\<close>, and whether it is a \<^verbatim>\<open>DCFactor\<close>, in
  which case it is either a \<^verbatim>\<open>DCGaussianMixtureFactor\<close> (carrying its decision tree of
  Gaussian factors) or some other DC factor. Whether the object is a continuous factor,
  of the kind the graph \<^verbatim>\<open>FG\<close> holds (a \<^verbatim>\<open>NonlinearFactor\<close>, a \<^verbatim>\<open>GaussianFactor\<close>), is
  recorded as well, although no cast of the source asks for it. Stored pointers are taken
  to be non-null.
\<close>

type_synonym Key = nat

text \<open>A \<^verbatim>\<open>DiscreteKey\<close> is a key with its cardinality.\<close>

type_synonym DiscreteKey = "Key \<times> nat"

type_synonym DiscreteKeys = "DiscreteKey list"

text \<open>
  Modelled from the spec: \<^verbatim>\<open>DecisionTree\<close> is not part of the two source files. The spec
  describes it as a tree whose internal nodes are keyed by a discrete variable and have
  one child per state of that variable, and whose leaves hold a value.
\<close>

datatype 'v DecisionTree = Leaf 'v | Choice Key "'v DecisionTree list"

text \<open>The dynamic type of an object seen through a \<^verbatim>\<open>DCFactor\<close> pointer.\<close>

datatype 'g DCKind = DCGaussianMixtureFactor "'g DecisionTree" | OtherDCFactor

record 'g Factor =
  addr :: nat
  discrete :: bool
  dc :: "'g DCKind option"
  continuous_factor :: bool

text \<open>\<^verbatim>\<open>boost::dynamic_pointer_cast<DiscreteFactor>(p)\<close>: the pointer itself, or null.\<close>

definition cast_DiscreteFactor :: "'g Factor \<Rightarrow> 'g Factor option" where
  "cast_DiscreteFactor p = (if discrete p then Some p else None)"

text \<open>\<^verbatim>\<open>boost::dynamic_pointer_cast<DCFactor>(p)\<close>.\<close>

definition cast_DCFactor :: "'g Factor \<Rightarrow> 'g Factor option" where
  "cast_DCFactor p = (case dc p of Some k \<Rightarrow> Some p | None \<Rightarrow> None)"

text \<open>
  \<^verbatim>\<open>boost::dynamic_pointer_cast<DCGaussianMixtureFactor>(p)\<close>: the mixture factor, seen
  here as the decision tree it owns, or null.
\<close>

definition cast_DCGaussianMixtureFactor :: "'g Factor \<Rightarrow> 'g DecisionTree option" where
  "cast_DCGaussianMixtureFactor p =
     (case dc p of Some (DCGaussianMixtureFactor t) \<Rightarrow> Some t | _ \<Rightarrow> None)"

section \<open>The hybrid factor graph\<close>

text \<open>
  \<^verbatim>\<open>HybridFactorGraph<FG>\<close> derives from \<^verbatim>\<open>FactorGraph<Factor>\<close>, whose vector of
  pointers is the field \<open>factors\<close> here, and owns three graphs: \<open>factorGraph\<close> (of type
  \<^verbatim>\<open>FG\<close>; it is \<^verbatim>\<open>nonlinearGraph_\<close> in the \<^verbatim>\<open>.cpp\<close> file), \<open>discreteGraph\<close> and
  \<open>dcGraph\<close>. Each graph is the vector of its pointers, in insertion order.
\<close>

record 'g HybridFactorGraph =
  factors :: "'g Factor list"
  factorGraph :: "'g Factor list"
  discreteGraph :: "'g Factor list"
  dcGraph :: "'g Factor list"

text \<open>The default constructor: every graph is empty.\<close>

definition HybridFactorGraph_default :: "'g HybridFactorGraph" where
  "HybridFactorGraph_default =
     \<lparr>factors = [], factorGraph = [], discreteGraph = [], dcGraph = []\<rparr>"

text \<open>
  The constructor from three graphs copies each into its member and pushes the three, in
  this order, onto the base.
\<close>

definition HybridFactorGraph_of ::
  "'g Factor list \<Rightarrow> 'g Factor list \<Rightarrow> 'g Factor list \<Rightarrow> 'g HybridFactorGraph" where
  "HybridFactorGraph_of fg dg dcg =
     \<lparr>factors = ([] @ fg) @ dg @ dcg, factorGraph = fg, discreteGraph = dg, dcGraph = dcg\<rparr>"

text \<open>\<^verbatim>\<open>using Base::size\<close> and \<^verbatim>\<open>using Base::empty\<close>: both read the base's vector.\<close>

definition size_graph :: "'g HybridFactorGraph \<Rightarrow> nat" where
  "size_graph g = length (factors g)"

definition empty_graph :: "'g HybridFactorGraph \<Rightarrow> bool" where
  "empty_graph g = (factors g = [])"

text \<open>
  \<^verbatim>\<open>using Base::operator[]\<close>. The source does not check the index; a read past the end
  is undefined there and is \<open>None\<close> here.
\<close>

definition at_index :: "'g HybridFactorGraph \<Rightarrow> nat \<Rightarrow> 'g Factor option" where
  "at_index g i = (if i < length (factors g) then Some (factors g ! i) else None)"

definition push_discrete :: "'g HybridFactorGraph \<Rightarrow> 'g Factor \<Rightarrow> 'g HybridFactorGraph" where
  "push_discrete g discreteFactor =
     g\<lparr>discreteGraph := discreteGraph g @ [discreteFactor],
       factors := factors g @ [discreteFactor]\<rparr>"

definition push_dc :: "'g HybridFactorGraph \<Rightarrow> 'g Factor \<Rightarrow> 'g HybridFactorGraph" where
  "push_dc g dcFactor =
     g\<lparr>dcGraph := dcGraph g @ [dcFactor],
       factors := factors g @ [dcFactor]\<rparr>"

text \<open>
  \<^verbatim>\<open>push_back(sharedFactor)\<close>: two independent \<^verbatim>\<open>if\<close>s, the discrete one first. There is
  no \<^verbatim>\<open>else\<close> branch and nothing is thrown.
\<close>

definition push_back :: "'g HybridFactorGraph \<Rightarrow> 'g Factor \<Rightarrow> 'g HybridFactorGraph" where
  "push_back g sharedFactor =
     (let g1 = (case cast_DiscreteFactor sharedFactor of
                  Some p \<Rightarrow> push_discrete g p | None \<Rightarrow> g)
      in (case cast_DCFactor sharedFactor of
            Some p \<Rightarrow> push_dc g1 p | None \<Rightarrow> g1))"

text \<open>\<^verbatim>\<open>push_back(firstFactor, lastFactor)\<close>: the loop over an iterator range.\<close>

fun push_back_range :: "'g HybridFactorGraph \<Rightarrow> 'g Factor list \<Rightarrow> 'g HybridFactorGraph" where
  "push_back_range g [] = g"
| "push_back_range g (f # fs) = push_back_range (push_back g f) fs"

definition nrDiscreteFactors :: "'g HybridFactorGraph \<Rightarrow> nat" where
  "nrDiscreteFactors g = length (discreteGraph g)"

definition nrDcFactors :: "'g HybridFactorGraph \<Rightarrow> nat" where
  "nrDcFactors g = length (dcGraph g)"

text \<open>
  \<^verbatim>\<open>clear()\<close> assigns a fresh graph to each of the three members (the header), or resizes
  each of them to zero (the \<^verbatim>\<open>.cpp\<close> file). Neither version touches the base.
\<close>

definition clear :: "'g HybridFactorGraph \<Rightarrow> 'g HybridFactorGraph" where
  "clear g = g\<lparr>discreteGraph := [], dcGraph := [], factorGraph := []\<rparr>"

definition clear_cpp :: "'g HybridFactorGraph \<Rightarrow> 'g HybridFactorGraph" where
  "clear_cpp g =
     g\<lparr>factorGraph := take 0 (factorGraph g),
       discreteGraph := take 0 (discreteGraph g),
       dcGraph := take 0 (dcGraph g)\<rparr>"

section \<open>Example objects\<close>

text \<open>
  Concrete factor objects for the examples below, with Gaussian factors named by numbers:
  a factor of another kind altogether, a continuous factor, two discrete factors, a DC
  factor that is not a mixture, and an object that implements both \<^verbatim>\<open>DiscreteFactor\<close>
  and \<^verbatim>\<open>DCFactor\<close>.
\<close>

definition gaussianFactorG :: "nat Factor" where
  "gaussianFactorG = \<lparr>addr = 8, discrete = False, dc = None, continuous_factor = True\<rparr>"

definition plainFactor :: "nat Factor" where
  "plainFactor = \<lparr>addr = 7, discrete = False, dc = None, continuous_factor = False\<rparr>"

definition discreteFactorA :: "nat Factor" where
  "discreteFactorA = \<lparr>addr = 1, discrete = True, dc = None, continuous_factor = False\<rparr>"

definition discreteFactorC :: "nat Factor" where
  "discreteFactorC = \<lparr>addr = 4, discrete = True, dc = None, continuous_factor = False\<rparr>"

definition dcFactorB :: "nat Factor" where
  "dcFactorB = \<lparr>addr = 2, discrete = False, dc = Some OtherDCFactor, continuous_factor = False\<rparr>"

definition bothFactor :: "nat Factor" where
  "bothFactor = \<lparr>addr = 3, discrete = True, dc = Some OtherDCFactor, continuous_factor = False\<rparr>"

text \<open>
  The spec's reading of the router, written down to compare it with the source's: after
  the call the factor sits in every sub-collection whose capability it satisfies, the
  continuous one included.
\<close>

definition filed_into_every_match :: "'g Factor \<Rightarrow> 'g HybridFactorGraph \<Rightarrow> bool" where
  "filed_into_every_match f g =
     ((continuous_factor f \<longrightarrow> f \<in> set (factorGraph g)) \<and>
      (discrete f \<longrightarrow> f \<in> set (discreteGraph g)) \<and>
      (dc f \<noteq> None \<longrightarrow> f \<in> set (dcGraph g)))"

text \<open>
  The spec's reading of \<^verbatim>\<open>size()\<close>, written down to compare it with the source's: the
  number of distinct factor objects stored in the three graphs, an object that sits in two
  graphs (or twice in one) counted once.
\<close>

definition nrDistinctObjects :: "'g HybridFactorGraph \<Rightarrow> nat" where
  "nrDistinctObjects g =
     length (remdups (map addr (factorGraph g @ discreteGraph g @ dcGraph g)))"

text \<open>
  The relation between the base's list and the three graphs: the base's list is an
  interleaving of the three graphs, each of them in its own order. It is stated with
  \<^const>\<open>shuffles\<close>: the discrete and the DC graph interleave into some list, which
  interleaves with \<open>factorGraph\<close> into the base's list.
\<close>

definition flat_invariant :: "'g HybridFactorGraph \<Rightarrow> bool" where
  "flat_invariant g =
     (\<exists>zs \<in> shuffles (discreteGraph g) (dcGraph g). factors g \<in> shuffles (factorGraph g) zs)"

text \<open>The calls that add to a container, as values, and their effect.\<close>

datatype 'g add_operation =
  Push_discrete "'g Factor" | Push_dc "'g Factor" | Push_back "'g Factor"

fun add_step :: "'g HybridFactorGraph \<Rightarrow> 'g add_operation \<Rightarrow> 'g HybridFactorGraph" where
  "add_step g (Push_discrete f) = push_discrete g f"
| "add_step g (Push_dc f) = push_dc g f"
| "add_step g (Push_back f) = push_back g f"

text \<open>
  Modelled from the spec: \<^verbatim>\<open>FactorGraph::equals\<close> is not part of the two source files.
  Two graphs are equal under a tolerance when their sizes match and their factors are
  equal under that tolerance element by element, in insertion order. What it means for two
  factors to be equal under a tolerance is the factors' own business and a parameter here.
\<close>

fun FactorGraph_equals ::
  "(real \<Rightarrow> 'a \<Rightarrow> 'a \<Rightarrow> bool) \<Rightarrow> 'a list \<Rightarrow> 'a list \<Rightarrow> real \<Rightarrow> bool" where
  "FactorGraph_equals eq [] [] tol = True"
| "FactorGraph_equals eq (x # xs) (y # ys) tol = (eq tol x y \<and> FactorGraph_equals eq xs ys tol)"
| "FactorGraph_equals eq [] (y # ys) tol = False"
| "FactorGraph_equals eq (x # xs) [] tol = False"

text \<open>
  \<^verbatim>\<open>equals(other, tol)\<close> of the header: the base first, then the discrete graph, the DC
  graph and \<^verbatim>\<open>factorGraph_\<close>. The four graphs have four element types, hence four
  factor-level comparisons.
\<close>

definition equals ::
  "(real \<Rightarrow> 'g Factor \<Rightarrow> 'g Factor \<Rightarrow> bool) \<Rightarrow> (real \<Rightarrow> 'g Factor \<Rightarrow> 'g Factor \<Rightarrow> bool) \<Rightarrow>
   (real \<Rightarrow> 'g Factor \<Rightarrow> 'g Factor \<Rightarrow> bool) \<Rightarrow> (real \<Rightarrow> 'g Factor \<Rightarrow> 'g Factor \<Rightarrow> bool) \<Rightarrow>
   'g HybridFactorGraph \<Rightarrow> 'g HybridFactorGraph \<Rightarrow> real \<Rightarrow> bool" where
  "equals eqBase eqFG eqDiscrete eqDC g other tol =
     (FactorGraph_equals eqBase (factors g) (factors other) tol \<and>
      FactorGraph_equals eqDiscrete (discreteGraph g) (discreteGraph other) tol \<and>
      FactorGraph_equals eqDC (dcGraph g) (dcGraph other) tol \<and>
      FactorGraph_equals eqFG (factorGraph g) (factorGraph other) tol)"

text \<open>\<^verbatim>\<open>equals\<close> of the \<^verbatim>\<open>.cpp\<close> file: the same four conjuncts in another order.\<close>

definition equals_cpp ::
  "(real \<Rightarrow> 'g Factor \<Rightarrow> 'g Factor \<Rightarrow> bool) \<Rightarrow> (real \<Rightarrow> 'g Factor \<Rightarrow> 'g Factor \<Rightarrow> bool) \<Rightarrow>
   (real \<Rightarrow> 'g Factor \<Rightarrow> 'g Factor \<Rightarrow> bool) \<Rightarrow> (real \<Rightarrow> 'g Factor \<Rightarrow> 'g Factor \<Rightarrow> bool) \<Rightarrow>
   'g HybridFactorGraph \<Rightarrow> 'g HybridFactorGraph \<Rightarrow> real \<Rightarrow> bool" where
  "equals_cpp eqBase eqFG eqDiscrete eqDC g other tol =
     (FactorGraph_equals eqBase (factors g) (factors other) tol \<and>
      FactorGraph_equals eqFG (factorGraph g) (factorGraph other) tol \<and>
      FactorGraph_equals eqDiscrete (discreteGraph g) (discreteGraph other) tol \<and>
      FactorGraph_equals eqDC (dcGraph g) (dcGraph other) tol)"

text \<open>
  The spec's reading of \<^verbatim>\<open>equals\<close>, written down to compare it with the source's: the
  three sub-collections are equal element by element under the tolerance, sizes included.
\<close>

definition sub_collections_equal ::
  "(real \<Rightarrow> 'g Factor \<Rightarrow> 'g Factor \<Rightarrow> bool) \<Rightarrow>
   (real \<Rightarrow> 'g Factor \<Rightarrow> 'g Factor \<Rightarrow> bool) \<Rightarrow> (real \<Rightarrow> 'g Factor \<Rightarrow> 'g Factor \<Rightarrow> bool) \<Rightarrow>
   'g HybridFactorGraph \<Rightarrow> 'g HybridFactorGraph \<Rightarrow> real \<Rightarrow> bool" where
  "sub_collections_equal eqFG eqDiscrete eqDC g other tol =
     (list_all2 (eqFG tol) (factorGraph g) (factorGraph other) \<and>
      list_all2 (eqDiscrete tol) (discreteGraph g) (discreteGraph other) \<and>
      list_all2 (eqDC tol) (dcGraph g) (dcGraph other))"

text \<open>A factor-level comparison for the examples: equal when the same object.\<close>

definition same_object :: "real \<Rightarrow> 'g Factor \<Rightarrow> 'g Factor \<Rightarrow> bool" where
  "same_object tol f f' = (f = f')"

text \<open>
  The loop of \<^verbatim>\<open>discreteKeys()\<close> over \<^verbatim>\<open>dcKeys\<close>: a key that \<^verbatim>\<open>std::find\<close> does not
  find in \<^verbatim>\<open>result\<close> is pushed onto its end.
\<close>

fun insert_unique :: "DiscreteKeys \<Rightarrow> DiscreteKeys \<Rightarrow> DiscreteKeys" where
  "insert_unique result [] = result"
| "insert_unique result (key # dcKeys) =
     insert_unique (if key \<notin> set result then result @ [key] else result) dcKeys"

text \<open>
  \<^verbatim>\<open>discreteKeys()\<close>, the same in the header and in the \<^verbatim>\<open>.cpp\<close> file. The two graphs'
  own \<^verbatim>\<open>discreteKeys()\<close> are not part of the two source files and are parameters:
  functions from a graph to the list of keys it reports. \<^verbatim>\<open>result\<close> starts as the discrete
  graph's list, copied as it is.
\<close>

definition discreteKeys ::
  "('g Factor list \<Rightarrow> DiscreteKeys) \<Rightarrow> ('g Factor list \<Rightarrow> DiscreteKeys) \<Rightarrow>
   'g HybridFactorGraph \<Rightarrow> DiscreteKeys" where
  "discreteKeys discreteGraph_discreteKeys dcGraph_discreteKeys g =
     (let result = discreteGraph_discreteKeys (discreteGraph g);
          dcKeys = dcGraph_discreteKeys (dcGraph g)
      in insert_unique result dcKeys)"

text \<open>
  The spec's reading of \<^verbatim>\<open>discreteKeys()\<close>, written down to compare it with the source's:
  the union of two lists with duplicates removed, in the order of first appearance.
\<close>

primrec remdups_first :: "'a list \<Rightarrow> 'a list" where
  "remdups_first [] = []"
| "remdups_first (x # xs) = x # filter (\<lambda>y. y \<noteq> x) (remdups_first xs)"





text \<open>
  The loop of \<^verbatim>\<open>linearize\<close> over \<^verbatim>\<open>dcGraph_\<close> (the \<^verbatim>\<open>.cpp\<close> file): a
  \<^verbatim>\<open>DCGaussianMixtureFactor\<close> is pushed as it is, any other DC factor is replaced by what
  its own \<^verbatim>\<open>linearize\<close> returns. That virtual method is not part of the source files and
  is a parameter.
\<close>

fun linearize_DC_factors ::
  "('g Factor \<Rightarrow> 'v \<Rightarrow> 'g Factor) \<Rightarrow> 'v \<Rightarrow> 'g Factor list \<Rightarrow> 'g Factor list \<Rightarrow> 'g Factor list" where
  "linearize_DC_factors DCFactor_linearize continuousValues linearized_DC_factors [] =
     linearized_DC_factors"
| "linearize_DC_factors DCFactor_linearize continuousValues linearized_DC_factors
     (dcFactor # rest) =
     linearize_DC_factors DCFactor_linearize continuousValues
       (case cast_DCGaussianMixtureFactor dcFactor of
          Some m \<Rightarrow> linearized_DC_factors @ [dcFactor]
        | None \<Rightarrow> linearized_DC_factors @ [DCFactor_linearize dcFactor continuousValues])
       rest"

text \<open>
  \<^verbatim>\<open>linearize(continuousValues)\<close>, a \<^verbatim>\<open>const\<close> method: it reads the receiver and returns
  a new container. \<^verbatim>\<open>NonlinearFactorGraph::linearize\<close> is a parameter as well, and the
  constructor of \<^verbatim>\<open>GaussianHybridFactorGraph\<close> is taken to be the header's constructor
  from three graphs.
\<close>

definition linearize ::
  "('g Factor list \<Rightarrow> 'v \<Rightarrow> 'g Factor list) \<Rightarrow> ('g Factor \<Rightarrow> 'v \<Rightarrow> 'g Factor) \<Rightarrow>
   'g HybridFactorGraph \<Rightarrow> 'v \<Rightarrow> 'g HybridFactorGraph" where
  "linearize NonlinearFactorGraph_linearize DCFactor_linearize g continuousValues =
     (let gaussianFactorGraph = NonlinearFactorGraph_linearize (factorGraph g) continuousValues;
          linearized_DC_factors =
            linearize_DC_factors DCFactor_linearize continuousValues [] (dcGraph g)
      in HybridFactorGraph_of gaussianFactorGraph (discreteGraph g) linearized_DC_factors)"

section \<open>Decision trees and the sum of mixture factors\<close>

text \<open>
  Modelled from the spec: the leaf of a decision tree for a joint assignment, which gives
  every discrete variable a state index. A node keyed by the variable \<open>k\<close> passes to its
  child number \<open>a k\<close>; where the node has no such child the tree has no leaf.
\<close>

function leafAt :: "(Key \<Rightarrow> nat) \<Rightarrow> 'v DecisionTree \<Rightarrow> 'v option" where
  "leafAt a (Leaf v) = Some v"
| "leafAt a (Choice k cs) = (if a k < length cs then leafAt a (cs ! a k) else None)"
  by pat_completeness auto
termination
proof (relation "measure (\<lambda>(a, t). size t)")
  show "wf (measure (\<lambda>(a :: Key \<Rightarrow> nat, t :: 'v DecisionTree). size t))"
    by simp
next
  fix a :: "Key \<Rightarrow> nat" and k :: Key and cs :: "'v DecisionTree list"
  assume "a k < length cs"
  then have "cs ! a k \<in> set cs"
    by simp
  then have "size (cs ! a k) \<le> size_list size cs"
    by (rule size_list_estimation') simp
  then show "((a, cs ! a k), (a, Choice k cs)) \<in> measure (\<lambda>(a, t). size t)"
    by simp
qed

text \<open>
  The only \<^verbatim>\<open>throw\<close> of the two files: a \<^verbatim>\<open>std::runtime_error\<close> with a fixed message,
  the condition the spec calls \<^verbatim>\<open>UnsupportedFactorKind\<close>. \<open>ScopeInconsistency\<close> is the
  spec's condition for two merge operands that disagree on the cardinality of a variable;
  nothing in the two files throws it.
\<close>

datatype error = runtime_error string | ScopeInconsistency

definition UnsupportedFactorKind :: error where
  "UnsupportedFactorKind =
     runtime_error ''HybridFactorGraph::sum can only handle DCGaussianMixtureFactors.''"

text \<open>
  The loop of \<^verbatim>\<open>sum()\<close> over \<^verbatim>\<open>dcGraph()\<close>, the same in the header and in the
  \<^verbatim>\<open>.cpp\<close> file: a \<^verbatim>\<open>DCGaussianMixtureFactor\<close> is added to the running sum, anything
  else throws. \<^verbatim>\<open>DCGaussianMixtureFactor::Sum\<close>, its default constructor and its
  \<^verbatim>\<open>operator+=\<close> are not part of the two source files and are parameters of the loop
  and of \<open>sum_graph\<close>; the operator is a function, so it returns.
\<close>

fun sum_loop :: "('s \<Rightarrow> 'g DecisionTree \<Rightarrow> 's) \<Rightarrow> 's \<Rightarrow> 'g Factor list \<Rightarrow> error + 's" where
  "sum_loop add sumSoFar [] = Inr sumSoFar"
| "sum_loop add sumSoFar (dcFactor # rest) =
     (case cast_DCGaussianMixtureFactor dcFactor of
        Some mixtureFactor \<Rightarrow> sum_loop add (add sumSoFar mixtureFactor) rest
      | None \<Rightarrow> Inl UnsupportedFactorKind)"

definition sum_graph ::
  "'s \<Rightarrow> ('s \<Rightarrow> 'g DecisionTree \<Rightarrow> 's) \<Rightarrow> 'g HybridFactorGraph \<Rightarrow> error + 's" where
  "sum_graph Sum_default Sum_add g = sum_loop Sum_add Sum_default (dcGraph g)"

text \<open>
  \<^verbatim>\<open>DCGaussianMixtureFactor::Sum\<close> by the names of the source: a decision tree whose
  leaves are graphs of Gaussian factors, a graph being the list of its factors.
\<close>

type_synonym 'g GaussianFactorGraph = "'g list"

type_synonym 'g Sum = "'g GaussianFactorGraph DecisionTree"

text \<open>
  Two mixture factors for the examples, over a variable with two states and over one
  with three, and the sum of the two.
\<close>

definition treeA :: "nat DecisionTree" where
  "treeA = Choice 0 [Leaf 10, Leaf 11]"

definition treeB :: "nat DecisionTree" where
  "treeB = Choice 1 [Leaf 20, Leaf 21, Leaf 22]"

definition mixtureFactorA :: "nat Factor" where
  "mixtureFactorA =
     \<lparr>addr = 5, discrete = False, dc = Some (DCGaussianMixtureFactor treeA),
      continuous_factor = False\<rparr>"

definition mixtureFactorB :: "nat Factor" where
  "mixtureFactorB =
     \<lparr>addr = 6, discrete = False, dc = Some (DCGaussianMixtureFactor treeB),
      continuous_factor = False\<rparr>"

definition treeAB :: "nat Sum" where
  "treeAB = Choice 0 [Choice 1 [Leaf [10, 20], Leaf [10, 21], Leaf [10, 22]],
                      Choice 1 [Leaf [11, 20], Leaf [11, 21], Leaf [11, 22]]]"

definition twoMixtures :: "nat HybridFactorGraph" where
  "twoMixtures = HybridFactorGraph_of [] [] [mixtureFactorA, mixtureFactorB]"

text \<open>
  Modelled from the spec: the discrete scope a decision tree declares, every variable
  with its cardinality: the key of each node with the number of its children.
\<close>

fun scope :: "'v DecisionTree \<Rightarrow> DiscreteKeys" where
  "scope (Leaf v) = []"
| "scope (Choice k cs) = (k, length cs) # concat (map scope cs)"

text \<open>
  Modelled from the spec: two scopes agree when no variable has one cardinality in the one
  and another in the other.
\<close>

definition scopes_agree :: "DiscreteKeys \<Rightarrow> DiscreteKeys \<Rightarrow> bool" where
  "scopes_agree ks ks' =
     list_all (\<lambda>(k, n). list_all (\<lambda>(k', n'). k = k' \<longrightarrow> n = n') ks') ks"

text \<open>
  Modelled from the spec: the recursion of the merge over the nodes of two trees whose
  scopes agree, with the caller's operator on the leaves. The fixed order of the variables
  along every path is taken to be the order of the keys: of two nodes the one with the
  smaller key is split first, against the whole other tree. Two nodes with the same key
  have the same number of children, the scopes agreeing, and are merged child by child.
\<close>

function (sequential) merge_nodes ::
  "('a \<Rightarrow> 'b \<Rightarrow> 'c) \<Rightarrow> 'a DecisionTree \<Rightarrow> 'b DecisionTree \<Rightarrow> 'c DecisionTree" where
  "merge_nodes op (Leaf x) (Leaf y) = Leaf (op x y)"
| "merge_nodes op (Leaf x) (Choice k' cs') =
     Choice k' (map (\<lambda>c'. merge_nodes op (Leaf x) c') cs')"
| "merge_nodes op (Choice k cs) (Leaf y) =
     Choice k (map (\<lambda>c. merge_nodes op c (Leaf y)) cs)"
| "merge_nodes op (Choice k cs) (Choice k' cs') =
     (if k = k' then Choice k (map (\<lambda>(c, c'). merge_nodes op c c') (zip cs cs'))
      else if k < k' then Choice k (map (\<lambda>c. merge_nodes op c (Choice k' cs')) cs)
      else Choice k' (map (\<lambda>c'. merge_nodes op (Choice k cs) c') cs'))"
  by pat_completeness auto
termination
proof (relation "measure (\<lambda>(op, t, u). size t + size u)", goal_cases)
  case 1
  show ?case by simp
next
  case (2 op x k' cs' c')
  from \<open>c' \<in> set cs'\<close> have "size c' \<le> size_list size cs'"
    by (rule size_list_estimation') simp
  then show ?case by simp
next
  case (3 op k cs y c)
  from \<open>c \<in> set cs\<close> have "size c \<le> size_list size cs"
    by (rule size_list_estimation') simp
  then show ?case by simp
next
  case (4 op k cs k' cs' p c c')
  then have "c \<in> set cs" and "c' \<in> set cs'"
    by (auto dest: set_zip_leftD set_zip_rightD)
  then have "size c \<le> size_list size cs" and "size c' \<le> size_list size cs'"
    by (auto intro: size_list_estimation')
  then show ?case by simp
next
  case (5 op k cs k' cs' c)
  from \<open>c \<in> set cs\<close> have "size c \<le> size_list size cs"
    by (rule size_list_estimation') simp
  then show ?case by simp
next
  case (6 op k cs k' cs' c')
  from \<open>c' \<in> set cs'\<close> have "size c' \<le> size_list size cs'"
    by (rule size_list_estimation') simp
  then show ?case by simp
qed

text \<open>
  Modelled from the spec: the merge of two decision trees over possibly different
  variables. Operands whose scopes disagree on the cardinality of a variable are the
  spec's \<open>ScopeInconsistency\<close>, fatal to the merge: neither cardinality is picked.
\<close>

definition merge ::
  "('a \<Rightarrow> 'b \<Rightarrow> 'c) \<Rightarrow> 'a DecisionTree \<Rightarrow> 'b DecisionTree \<Rightarrow> error + 'c DecisionTree" where
  "merge op t u =
     (if scopes_agree (scope t) (scope u) then Inr (merge_nodes op t u)
      else Inl ScopeInconsistency)"

text \<open>
  Modelled from the spec: the invariant of a decision tree, for given cardinalities of the
  variables. A node has exactly as many children as its variable has states, at least
  one, and the variables below a node come after it in the fixed order.
\<close>

fun wellFormed :: "(Key \<Rightarrow> nat) \<Rightarrow> 'v DecisionTree \<Rightarrow> bool" where
  "wellFormed cardinality (Leaf v) = True"
| "wellFormed cardinality (Choice k cs) =
     (length cs = cardinality k \<and> 0 < cardinality k \<and>
      (\<forall>c \<in> set cs. wellFormed cardinality c \<and> (\<forall>k' \<in> fst ` set (scope c). k < k')))"

text \<open>
  The loop of \<^verbatim>\<open>sum()\<close> once more, for an \<^verbatim>\<open>operator+=\<close> that may throw: its exception
  leaves the loop and \<^verbatim>\<open>sum()\<close>. With an operator that always returns this is
  \<open>sum_loop\<close>.
\<close>

fun sum_loop_throwing ::
  "('s \<Rightarrow> 'g DecisionTree \<Rightarrow> error + 's) \<Rightarrow> 's \<Rightarrow> 'g Factor list \<Rightarrow> error + 's" where
  "sum_loop_throwing add sumSoFar [] = Inr sumSoFar"
| "sum_loop_throwing add sumSoFar (dcFactor # rest) =
     (case cast_DCGaussianMixtureFactor dcFactor of
        Some mixtureFactor \<Rightarrow>
          (case add sumSoFar mixtureFactor of
             Inr sumNext \<Rightarrow> sum_loop_throwing add sumNext rest
           | Inl e \<Rightarrow> Inl e)
      | None \<Rightarrow> Inl UnsupportedFactorKind)"

definition sum_graph_throwing ::
  "'s \<Rightarrow> ('s \<Rightarrow> 'g DecisionTree \<Rightarrow> error + 's) \<Rightarrow> 'g HybridFactorGraph \<Rightarrow> error + 's" where
  "sum_graph_throwing Sum_default Sum_add g = sum_loop_throwing Sum_add Sum_default (dcGraph g)"

text \<open>
  Modelled from the spec: \<^verbatim>\<open>DCGaussianMixtureFactor::Sum\<close> is a decision tree whose leaves
  are collections of Gaussian factors. The sum starts from the tree with no discrete
  variable and one leaf, the empty collection, and \<^verbatim>\<open>operator+=\<close> merges the running
  tree with a mixture factor's tree, appending the factor's leaf to the collection.
\<close>

definition Sum_default :: "'g Sum" where
  "Sum_default = Leaf []"

definition Sum_add :: "'g Sum \<Rightarrow> 'g DecisionTree \<Rightarrow> error + 'g Sum" where
  "Sum_add sumSoFar mixtureFactor =
     merge (\<lambda>graph factor. graph @ [factor]) sumSoFar mixtureFactor"

text \<open>
  The spec's reading of \<^verbatim>\<open>sum()\<close>, written down to compare it with the source's: the
  fold of the merge over the trees of the mixture factors, in their order, from a starting
  tree; a merge that fails ends it.
\<close>

definition fold_merges :: "'g Sum \<Rightarrow> 'g DecisionTree list \<Rightarrow> error + 'g Sum" where
  "fold_merges start ts =
     foldl (\<lambda>acc t. case acc of Inl e \<Rightarrow> Inl e | Inr s \<Rightarrow> Sum_add s t) (Inr start) ts"

text \<open>
  For the examples: a mixture factor that gives the variable of \<open>treeA\<close> three states,
  the cardinalities of the two variables of \<open>treeA\<close> and \<open>treeB\<close>, and an assignment.
\<close>

definition treeA3 :: "nat DecisionTree" where
  "treeA3 = Choice 0 [Leaf 30, Leaf 31, Leaf 32]"

definition mixtureFactorA3 :: "nat Factor" where
  "mixtureFactorA3 =
     \<lparr>addr = 9, discrete = False, dc = Some (DCGaussianMixtureFactor treeA3),
      continuous_factor = False\<rparr>"

definition twoThree :: "Key \<Rightarrow> nat" where
  "twoThree k = (if k = 0 then 2 else 3)"

definition secondAndThird :: "Key \<Rightarrow> nat" where
  "secondAndThird k = (if k = 0 then 1 else 2)"

section \<open>The router\<close>

lemma push_back_discreteGraph:
  "discreteGraph (push_back g f) = discreteGraph g @ (if discrete f then [f] else [])"
  by (simp add: push_back_def push_discrete_def push_dc_def cast_DiscreteFactor_def
      cast_DCFactor_def split: option.splits)

lemma push_back_dcGraph:
  "dcGraph (push_back g f) = dcGraph g @ (if dc f \<noteq> None then [f] else [])"
  by (auto simp add: push_back_def push_discrete_def push_dc_def cast_DiscreteFactor_def
      cast_DCFactor_def split: option.splits)

lemma push_back_factorGraph:
  "factorGraph (push_back g f) = factorGraph g"
  by (simp add: push_back_def push_discrete_def push_dc_def cast_DiscreteFactor_def
      cast_DCFactor_def split: option.splits)

lemma push_back_factors:
  "factors (push_back g f) =
     factors g @ (if discrete f then [f] else []) @ (if dc f \<noteq> None then [f] else [])"
  by (auto simp add: push_back_def push_discrete_def push_dc_def cast_DiscreteFactor_def
      cast_DCFactor_def split: option.splits)

text \<open>
  C9. A factor that is neither a \<^verbatim>\<open>DiscreteFactor\<close> nor a \<^verbatim>\<open>DCFactor\<close> makes both casts
  of \<^verbatim>\<open>push_back\<close> null: the call returns the container as it was, base and all three
  graphs, and there is no error value to return.
\<close>

theorem push_back_no_capability:
  "\<not> discrete f \<Longrightarrow> dc f = None \<Longrightarrow> push_back g f = g"
  by (simp add: push_back_def cast_DiscreteFactor_def cast_DCFactor_def)

theorem push_back_no_capability_witness:
  "\<not> discrete plainFactor \<and> dc plainFactor = None
   \<and> push_back (HybridFactorGraph_of [] [discreteFactorA] []) plainFactor
     = HybridFactorGraph_of [] [discreteFactorA] []"
  using push_back_no_capability [of plainFactor "HybridFactorGraph_of [] [discreteFactorA] []"]
  by (simp add: plainFactor_def)

lemma push_back_range_discreteGraph:
  "discreteGraph (push_back_range g fs) = discreteGraph g @ filter discrete fs"
  by (induction fs arbitrary: g) (simp_all add: push_back_discreteGraph)

lemma push_back_range_dcGraph:
  "dcGraph (push_back_range g fs) = dcGraph g @ filter (\<lambda>f. dc f \<noteq> None) fs"
  by (induction fs arbitrary: g) (simp_all add: push_back_dcGraph)

lemma push_back_range_factorGraph:
  "factorGraph (push_back_range g fs) = factorGraph g"
  by (induction fs arbitrary: g) (simp_all add: push_back_factorGraph)

lemma push_back_range_length_factors:
  "length (factors (push_back_range g fs)) =
     length (factors g) + length (filter discrete fs) + length (filter (\<lambda>f. dc f \<noteq> None) fs)"
  by (induction fs arbitrary: g) (simp_all add: push_back_factors)

text \<open>
  C4, as stated, fails for the continuous sub-collection: \<^verbatim>\<open>push_back\<close> has no cast for
  it, so a continuous factor (a \<^verbatim>\<open>GaussianFactor\<close>, say) is filed nowhere and the
  container stays as it was.
\<close>

theorem push_back_continuous_counterexample:
  "continuous_factor gaussianFactorG
   \<and> \<not> filed_into_every_match gaussianFactorG
         (push_back HybridFactorGraph_default gaussianFactorG)
   \<and> push_back HybridFactorGraph_default gaussianFactorG = HybridFactorGraph_default"
  by (simp add: filed_into_every_match_def push_back_def cast_DiscreteFactor_def
      cast_DCFactor_def HybridFactorGraph_default_def gaussianFactorG_def)

text \<open>
  C4, amended. \<^verbatim>\<open>push_back\<close> files a factor into the discrete graph exactly when it is
  a \<^verbatim>\<open>DiscreteFactor\<close> and into the DC graph exactly when it is a \<^verbatim>\<open>DCFactor\<close>, into
  both when it is both, always at the end, and never into the continuous graph
  \<open>factorGraph\<close>, which the constructor alone fills. Adding the same pointer twice leaves
  it twice in each matching one of the two graphs, and a range of factors keeps its order
  within each graph: nothing is deduplicated.
\<close>

theorem push_back_files_every_match:
  "discreteGraph (push_back g f) = discreteGraph g @ (if discrete f then [f] else [])
   \<and> dcGraph (push_back g f) = dcGraph g @ (if dc f \<noteq> None then [f] else [])
   \<and> factorGraph (push_back g f) = factorGraph g
   \<and> discreteGraph (push_back (push_back g f) f)
       = discreteGraph g @ (if discrete f then [f, f] else [])
   \<and> dcGraph (push_back (push_back g f) f)
       = dcGraph g @ (if dc f \<noteq> None then [f, f] else [])
   \<and> discreteGraph (push_back_range g fs) = discreteGraph g @ filter discrete fs
   \<and> dcGraph (push_back_range g fs) = dcGraph g @ filter (\<lambda>f. dc f \<noteq> None) fs"
  by (simp add: push_back_discreteGraph push_back_dcGraph push_back_factorGraph
      push_back_range_discreteGraph push_back_range_dcGraph)

section \<open>Counting\<close>

text \<open>
  C3, as stated, fails: an object that is both a \<^verbatim>\<open>DiscreteFactor\<close> and a
  \<^verbatim>\<open>DCFactor\<close> is pushed onto the base by \<^verbatim>\<open>push_discrete\<close> and again by
  \<^verbatim>\<open>push_dc\<close>, so \<^verbatim>\<open>size()\<close> is 2 for one stored object.
\<close>

theorem size_counts_once_counterexample:
  "size_graph (push_back_range HybridFactorGraph_default [bothFactor])
     \<noteq> nrDistinctObjects (push_back_range HybridFactorGraph_default [bothFactor])"
  by (simp add: size_graph_def nrDistinctObjects_def push_back_factors push_back_dcGraph
      push_back_discreteGraph push_back_factorGraph HybridFactorGraph_default_def bothFactor_def)

text \<open>
  C3, amended. For every sequence of factors added through the router to an empty
  container, \<^verbatim>\<open>size()\<close> is the number of filings,
  \<^verbatim>\<open>nrDiscreteFactors() + nrDcFactors()\<close>, where \<^verbatim>\<open>nrDiscreteFactors()\<close> counts the added
  factors that are discrete factors and \<^verbatim>\<open>nrDcFactors()\<close> those that are DC factors: a
  factor filed into both graphs is counted twice.
\<close>

theorem size_counts_filings:
  "size_graph (push_back_range HybridFactorGraph_default fs)
     = nrDiscreteFactors (push_back_range HybridFactorGraph_default fs)
       + nrDcFactors (push_back_range HybridFactorGraph_default fs)
   \<and> nrDiscreteFactors (push_back_range HybridFactorGraph_default fs)
     = length (filter discrete fs)
   \<and> nrDcFactors (push_back_range HybridFactorGraph_default fs)
     = length (filter (\<lambda>f. dc f \<noteq> None) fs)"
  by (simp add: size_graph_def nrDiscreteFactors_def nrDcFactors_def
      push_back_range_length_factors push_back_range_discreteGraph push_back_range_dcGraph
      HybridFactorGraph_default_def)

section \<open>The base list and the three graphs\<close>

lemma append_in_shuffles: "xs @ ys \<in> shuffles xs ys"
  by (induction xs) (simp_all add: Cons_in_shuffles_leftI)

lemma snoc_in_shuffles_left:
  "zs \<in> shuffles xs ys \<Longrightarrow> zs @ [a] \<in> shuffles (xs @ [a]) ys"
proof (induction zs arbitrary: xs ys)
  case Nil
  then show ?case by simp
next
  case (Cons z zs)
  from Cons.prems consider
    (left) "xs \<noteq> []" "hd xs = z" "zs \<in> shuffles (tl xs) ys"
    | (right) "ys \<noteq> []" "hd ys = z" "zs \<in> shuffles xs (tl ys)"
    by (auto simp: Cons_in_shuffles_iff)
  then show ?case
  proof cases
    case left
    from Cons.IH [OF left(3)] left(1,2) show ?thesis
      by (simp add: Cons_in_shuffles_iff)
  next
    case right
    from Cons.IH [OF right(3)] right(1,2) show ?thesis
      by (simp add: Cons_in_shuffles_iff)
  qed
qed

lemma snoc_in_shuffles_right:
  "zs \<in> shuffles xs ys \<Longrightarrow> zs @ [a] \<in> shuffles xs (ys @ [a])"
  using snoc_in_shuffles_left [of zs ys xs a] by (simp add: shuffles_commutes)

lemma HybridFactorGraph_default_of:
  "HybridFactorGraph_default = HybridFactorGraph_of [] [] []"
  by (simp add: HybridFactorGraph_default_def HybridFactorGraph_of_def)

lemma flat_invariant_of: "flat_invariant (HybridFactorGraph_of fg dg dcg)"
  unfolding flat_invariant_def HybridFactorGraph_of_def
  by (auto intro!: bexI [of _ "dg @ dcg"] append_in_shuffles)

lemma flat_invariant_default: "flat_invariant HybridFactorGraph_default"
  by (simp add: flat_invariant_def HybridFactorGraph_default_def)

lemma flat_invariant_push_discrete:
  assumes "flat_invariant g"
  shows "flat_invariant (push_discrete g f)"
proof -
  from assms obtain zs where zs: "zs \<in> shuffles (discreteGraph g) (dcGraph g)"
    and fs: "factors g \<in> shuffles (factorGraph g) zs"
    by (auto simp: flat_invariant_def)
  have "zs @ [f] \<in> shuffles (discreteGraph g @ [f]) (dcGraph g)"
    using zs by (rule snoc_in_shuffles_left)
  moreover have "factors g @ [f] \<in> shuffles (factorGraph g) (zs @ [f])"
    using fs by (rule snoc_in_shuffles_right)
  ultimately show ?thesis
    by (auto simp: flat_invariant_def push_discrete_def)
qed

lemma flat_invariant_push_dc:
  assumes "flat_invariant g"
  shows "flat_invariant (push_dc g f)"
proof -
  from assms obtain zs where zs: "zs \<in> shuffles (discreteGraph g) (dcGraph g)"
    and fs: "factors g \<in> shuffles (factorGraph g) zs"
    by (auto simp: flat_invariant_def)
  have "zs @ [f] \<in> shuffles (discreteGraph g) (dcGraph g @ [f])"
    using zs by (rule snoc_in_shuffles_right)
  moreover have "factors g @ [f] \<in> shuffles (factorGraph g) (zs @ [f])"
    using fs by (rule snoc_in_shuffles_right)
  ultimately show ?thesis
    by (auto simp: flat_invariant_def push_dc_def)
qed

lemma flat_invariant_push_back:
  "flat_invariant g \<Longrightarrow> flat_invariant (push_back g f)"
  by (simp add: push_back_def cast_DiscreteFactor_def cast_DCFactor_def
      flat_invariant_push_discrete flat_invariant_push_dc split: option.splits)

lemma flat_invariant_add_step:
  "flat_invariant g \<Longrightarrow> flat_invariant (add_step g a)"
  by (cases a)
    (simp_all add: flat_invariant_push_discrete flat_invariant_push_dc flat_invariant_push_back)

lemma flat_invariant_foldl:
  "flat_invariant g \<Longrightarrow> flat_invariant (foldl add_step g as)"
  by (induction as arbitrary: g) (simp_all add: flat_invariant_add_step)

lemma flat_invariant_mset:
  assumes "flat_invariant g"
  shows "mset (factors g) = mset (factorGraph g) + mset (discreteGraph g) + mset (dcGraph g)"
  using assms unfolding flat_invariant_def
  by (auto simp: add.assoc dest!: mset_shuffles)

lemma flat_invariant_length:
  assumes "flat_invariant g"
  shows "length (factors g) = length (factorGraph g) + length (discreteGraph g) + length (dcGraph g)"
  using assms unfolding flat_invariant_def
  by (auto dest!: length_shuffles)

text \<open>
  C10. A container made by a constructor (the default one is the bulk one on three empty
  graphs) and then changed by any sequence of \<^verbatim>\<open>push_discrete\<close>, \<^verbatim>\<open>push_dc\<close> and
  \<^verbatim>\<open>push_back\<close> calls keeps the base's list an interleaving of the three graphs: it holds
  exactly the filed factors, as a multiset and in the order of filing, and \<^verbatim>\<open>size()\<close>,
  which reads the base's list, is the sum of the three graphs' sizes. The bulk
  constructor files the three graphs one after the other; each \<^verbatim>\<open>push_discrete\<close> and
  \<^verbatim>\<open>push_dc\<close> appends its factor to the base's list, and \<^verbatim>\<open>push_back\<close> appends a factor
  once per graph it is filed into, so twice when it is both discrete and DC.
\<close>

theorem flat_list_invariant:
  fixes fg dg dcg :: "'g Factor list" and as :: "'g add_operation list"
  defines "g \<equiv> foldl add_step (HybridFactorGraph_of fg dg dcg) as"
  shows "flat_invariant g
    \<and> mset (factors g) = mset (factorGraph g) + mset (discreteGraph g) + mset (dcGraph g)
    \<and> size_graph g = length (factorGraph g) + nrDiscreteFactors g + nrDcFactors g
    \<and> factors (HybridFactorGraph_of fg dg dcg) = fg @ dg @ dcg
    \<and> factors (push_discrete g f) = factors g @ [f]
    \<and> factors (push_dc g f) = factors g @ [f]
    \<and> factors (push_back g f)
        = factors g @ (if discrete f then [f] else []) @ (if dc f \<noteq> None then [f] else [])"
proof -
  have inv: "flat_invariant g"
    unfolding g_def by (rule flat_invariant_foldl) (rule flat_invariant_of)
  show ?thesis
    using inv flat_invariant_mset [OF inv] flat_invariant_length [OF inv]
    by (simp add: size_graph_def nrDiscreteFactors_def nrDcFactors_def push_back_factors
        push_discrete_def push_dc_def HybridFactorGraph_of_def)
qed


section \<open>Clearing\<close>

lemma clear_cpp_eq: "clear_cpp g = clear g"
  by (simp add: clear_cpp_def clear_def)

lemma clear_graphs:
  "discreteGraph (clear g) = [] \<and> dcGraph (clear g) = [] \<and> factorGraph (clear g) = []
   \<and> factors (clear g) = factors g"
  by (simp add: clear_def)

text \<open>
  C7, at a container holding one discrete factor. After \<^verbatim>\<open>clear()\<close>, in the header's
  version and in the \<^verbatim>\<open>.cpp\<close> file's, the three graphs are empty and
  \<^verbatim>\<open>nrDiscreteFactors()\<close> and \<^verbatim>\<open>nrDcFactors()\<close> are 0, but the base's list still holds
  the factor: \<^verbatim>\<open>size()\<close> is 1, \<^verbatim>\<open>empty()\<close> is false and \<^verbatim>\<open>operator[]\<close> still
  returns it.
\<close>

theorem clear_leaves_size:
  "nrDiscreteFactors (clear (push_discrete HybridFactorGraph_default discreteFactorA)) = 0
   \<and> nrDcFactors (clear (push_discrete HybridFactorGraph_default discreteFactorA)) = 0
   \<and> factorGraph (clear (push_discrete HybridFactorGraph_default discreteFactorA)) = []
   \<and> size_graph (clear (push_discrete HybridFactorGraph_default discreteFactorA)) = 1
   \<and> size_graph (clear_cpp (push_discrete HybridFactorGraph_default discreteFactorA)) = 1
   \<and> \<not> empty_graph (clear (push_discrete HybridFactorGraph_default discreteFactorA))
   \<and> at_index (clear (push_discrete HybridFactorGraph_default discreteFactorA)) 0
       = Some discreteFactorA"
  by (simp add: clear_cpp_eq nrDiscreteFactors_def nrDcFactors_def size_graph_def
      empty_graph_def at_index_def clear_def push_discrete_def
      HybridFactorGraph_default_def)

section \<open>Equality\<close>

lemma FactorGraph_equals_list_all2:
  "FactorGraph_equals eq xs ys tol = list_all2 (eq tol) xs ys"
  by (induction eq xs ys tol rule: FactorGraph_equals.induct) simp_all

text \<open>
  C8, as stated, fails. Take a discrete factor and a DC factor and add them to two empty
  containers in opposite orders. The three sub-collections of the two containers are
  equal, but the base's lists are \<open>[A, B]\<close> and \<open>[B, A]\<close>, and \<^verbatim>\<open>equals\<close>, which compares
  the base's lists first, is false.
\<close>

theorem equals_sub_collections_counterexample:
  "\<not> (equals same_object same_object same_object same_object
         (push_dc (push_discrete HybridFactorGraph_default discreteFactorA) dcFactorB)
         (push_discrete (push_dc HybridFactorGraph_default dcFactorB) discreteFactorA)
         (1 / 10 ^ 9)
       = sub_collections_equal same_object same_object same_object
         (push_dc (push_discrete HybridFactorGraph_default discreteFactorA) dcFactorB)
         (push_discrete (push_dc HybridFactorGraph_default dcFactorB) discreteFactorA)
         (1 / 10 ^ 9))"
  by (simp add: equals_def sub_collections_equal_def same_object_def push_dc_def
      push_discrete_def HybridFactorGraph_default_def discreteFactorA_def dcFactorB_def)

text \<open>
  C8, amended. \<^verbatim>\<open>equals(other, tol)\<close> is true if and only if the base's flat lists are
  equal element by element under the tolerance, sizes included, and so are all three
  sub-collections. The header's and the \<^verbatim>\<open>.cpp\<close> file's versions agree.
\<close>

theorem equals_iff_base_and_sub_collections:
  "equals eqBase eqFG eqDiscrete eqDC g other tol
     = (list_all2 (eqBase tol) (factors g) (factors other)
        \<and> sub_collections_equal eqFG eqDiscrete eqDC g other tol)
   \<and> equals_cpp eqBase eqFG eqDiscrete eqDC g other tol
     = equals eqBase eqFG eqDiscrete eqDC g other tol"
  by (auto simp add: equals_def equals_cpp_def sub_collections_equal_def
      FactorGraph_equals_list_all2)

section \<open>Discrete keys\<close>

lemma set_remdups_first: "set (remdups_first xs) = set xs"
  by (induction xs) auto

lemma distinct_remdups_first: "distinct (remdups_first xs)"
  by (induction xs) (simp_all add: set_remdups_first)

lemma filter_remdups_first: "filter Q (remdups_first xs) = remdups_first (filter Q xs)"
proof (induction xs)
  case Nil
  then show ?case by simp
next
  case (Cons x xs)
  show ?case
  proof (cases "Q x")
    case True
    have "filter Q (filter (\<lambda>y. y \<noteq> x) (remdups_first xs))
        = filter (\<lambda>y. y \<noteq> x) (filter Q (remdups_first xs))"
      by (simp add: conj_commute)
    with True Cons show ?thesis by simp
  next
    case False
    then have "filter Q (filter (\<lambda>y. y \<noteq> x) (remdups_first xs)) = filter Q (remdups_first xs)"
      by (auto intro: filter_cong)
    with False Cons show ?thesis by simp
  qed
qed



lemma insert_unique_eq:
  "insert_unique result dcKeys
     = result @ remdups_first (filter (\<lambda>k. k \<notin> set result) dcKeys)"
proof (induction dcKeys arbitrary: result)
  case Nil
  then show ?case by simp
next
  case (Cons key dcKeys)
  show ?case
  proof (cases "key \<in> set result")
    case True
    then show ?thesis by (simp add: Cons.IH)
  next
    case False
    have "filter (\<lambda>k. k \<notin> set (result @ [key])) dcKeys
        = filter (\<lambda>y. y \<noteq> key) (filter (\<lambda>k. k \<notin> set result) dcKeys)"
      by (auto intro: filter_cong)
    with False show ?thesis
      by (simp add: Cons.IH filter_remdups_first)
  qed
qed

lemma set_insert_unique: "set (insert_unique result dcKeys) = set result \<union> set dcKeys"
  by (auto simp: insert_unique_eq set_remdups_first)

lemma distinct_insert_unique: "distinct (insert_unique result dcKeys) = distinct result"
  by (auto simp: insert_unique_eq set_remdups_first distinct_remdups_first)


lemma discreteKeys_general:
  "set (discreteKeys dK dcK g) = set (dK (discreteGraph g)) \<union> set (dcK (dcGraph g))
   \<and> discreteKeys dK dcK g
     = dK (discreteGraph g)
       @ remdups_first (filter (\<lambda>k. k \<notin> set (dK (discreteGraph g))) (dcK (dcGraph g)))
   \<and> distinct (discreteKeys dK dcK g) = distinct (dK (discreteGraph g))"
proof (intro conjI)
  show "set (discreteKeys dK dcK g) = set (dK (discreteGraph g)) \<union> set (dcK (dcGraph g))"
    by (simp add: discreteKeys_def Let_def set_insert_unique)
  show "discreteKeys dK dcK g
     = dK (discreteGraph g)
       @ remdups_first (filter (\<lambda>k. k \<notin> set (dK (discreteGraph g))) (dcK (dcGraph g)))"
    by (simp add: discreteKeys_def Let_def insert_unique_eq)
  show "distinct (discreteKeys dK dcK g) = distinct (dK (discreteGraph g))"
    by (simp add: discreteKeys_def Let_def distinct_insert_unique)
qed



section \<open>Linearization\<close>

lemma linearize_DC_factors_map:
  "linearize_DC_factors lin v acc fs
     = acc @ map (\<lambda>f. if cast_DCGaussianMixtureFactor f \<noteq> None then f else lin f v) fs"
  by (induction fs arbitrary: acc) (auto split: option.splits)

text \<open>
  C6. \<^verbatim>\<open>linearize\<close> is a function of the receiver and the point, and the container it
  returns has: as DC graph, the receiver's DC graph with every
  \<^verbatim>\<open>DCGaussianMixtureFactor\<close> kept as the very same object (so with its keys and its
  decision tree) and every other DC factor replaced by its linearization at the point, in
  the same order and number; as discrete graph, the receiver's discrete graph; as
  continuous graph, the linearization of the receiver's.
\<close>

theorem linearize_keeps_mixtures:
  "dcGraph (linearize nlLin dcLin g v)
     = map (\<lambda>f. if cast_DCGaussianMixtureFactor f \<noteq> None then f else dcLin f v) (dcGraph g)
   \<and> length (dcGraph (linearize nlLin dcLin g v)) = length (dcGraph g)
   \<and> discreteGraph (linearize nlLin dcLin g v) = discreteGraph g
   \<and> factorGraph (linearize nlLin dcLin g v) = nlLin (factorGraph g) v
   \<and> factors (linearize nlLin dcLin g v)
     = nlLin (factorGraph g) v @ discreteGraph g @ dcGraph (linearize nlLin dcLin g v)"
  by (simp add: linearize_def Let_def HybridFactorGraph_of_def linearize_DC_factors_map)

section \<open>The sum of the mixture factors\<close>

lemma sum_loop_fold:
  "those (map cast_DCGaussianMixtureFactor fs) = Some ts \<Longrightarrow>
   sum_loop add acc fs = Inr (foldl add acc ts)"
  by (induction fs arbitrary: acc ts) (auto split: option.splits)




lemma sum_loop_throwing_total:
  "sum_loop_throwing (\<lambda>s m. Inr (add s m)) z fs = sum_loop add z fs"
  by (induction fs arbitrary: z) (auto split: option.splits)

text \<open>The merge rule of the spec: the leaf of a merge is the operator on the two leaves.\<close>

lemma leafAt_merge_nodes:
  "leafAt a t = Some v \<Longrightarrow> leafAt a u = Some w \<Longrightarrow>
   leafAt a (merge_nodes op t u) = Some (op v w)"
proof (induction op t u arbitrary: v w rule: merge_nodes.induct)
  case (1 op x y)
  then show ?case by simp
next
  case (2 op x k' cs')
  then show ?case by (auto split: if_splits)
next
  case (3 op k cs y)
  then show ?case by (auto split: if_splits)
next
  case (4 op k cs k' cs')
  from "4.prems" have i: "a k < length cs" and v: "leafAt a (cs ! a k) = Some v"
    and i': "a k' < length cs'" and w: "leafAt a (cs' ! a k') = Some w"
    by (auto split: if_splits)
  show ?case
  proof (cases "k = k'")
    case True
    with i i' have "(cs ! a k, cs' ! a k) \<in> set (zip cs cs')"
      by (auto simp: set_zip)
    from "4.IH"(1) [OF True this refl] v w True
    have "leafAt a (merge_nodes op (cs ! a k) (cs' ! a k)) = Some (op v w)"
      by simp
    with True i i' show ?thesis by simp
  next
    case False
    show ?thesis
    proof (cases "k < k'")
      case True
      from i have "cs ! a k \<in> set cs" by simp
      from "4.IH"(2) [OF False True this v "4.prems"(2)] False True i
      show ?thesis by simp
    next
      case nless: False
      from i' have "cs' ! a k' \<in> set cs'" by simp
      from "4.IH"(3) [OF False nless this "4.prems"(1) w] False nless i'
      show ?thesis by simp
    qed
  qed
qed

lemma wellFormed_scope:
  "wellFormed cardinality t \<Longrightarrow> (k, n) \<in> set (scope t) \<Longrightarrow> n = cardinality k"
  by (induction t) auto

lemma wellFormed_scopes_agree:
  assumes "wellFormed cardinality t" and "wellFormed cardinality u"
  shows "scopes_agree (scope t) (scope u)"
  unfolding scopes_agree_def list_all_iff
  using wellFormed_scope [OF assms(1)] wellFormed_scope [OF assms(2)]
  by auto

lemma wellFormed_leafAt:
  "wellFormed cardinality t \<Longrightarrow> \<forall>k. a k < cardinality k \<Longrightarrow> \<exists>v. leafAt a t = Some v"
proof (induction t)
  case (Leaf v)
  then show ?case by simp
next
  case (Choice k cs)
  from Choice.prems have i: "a k < length cs"
    by simp
  then have "cs ! a k \<in> set cs"
    by simp
  with Choice.IH [OF this] Choice.prems i show ?case
    by simp
qed

lemma wellFormed_root_least:
  "wellFormed cardinality (Choice k cs) \<Longrightarrow> k' \<in> fst ` set (scope (Choice k cs)) \<Longrightarrow> k \<le> k'"
  by (fastforce simp: less_imp_le)

lemma wellFormed_merge_nodes:
  "wellFormed cardinality t \<Longrightarrow> wellFormed cardinality u \<Longrightarrow>
   wellFormed cardinality (merge_nodes op t u)
   \<and> set (scope (merge_nodes op t u)) = set (scope t) \<union> set (scope u)"
proof (induction op t u rule: merge_nodes.induct)
  case (1 op x y)
  then show ?case by simp
next
  case (2 op x k' cs')
  have ih: "wellFormed cardinality (merge_nodes op (Leaf x) c')
      \<and> set (scope (merge_nodes op (Leaf x) c')) = set (scope c')"
    if "c' \<in> set cs'" for c'
    using "2.IH" [OF that] "2.prems" that by simp
  from "2.prems" ih show ?case
    by (auto simp: image_iff)
next
  case (3 op k cs y)
  have ih: "wellFormed cardinality (merge_nodes op c (Leaf y))
      \<and> set (scope (merge_nodes op c (Leaf y))) = set (scope c)"
    if "c \<in> set cs" for c
    using "3.IH" [OF that] "3.prems" that by simp
  from "3.prems" ih show ?case
    by (auto simp: image_iff)
next
  case (4 op k cs k' cs')
  let ?t = "Choice k cs" and ?u = "Choice k' cs'"
  from "4.prems" have len: "length cs = cardinality k" "0 < cardinality k"
    and len': "length cs' = cardinality k'" "0 < cardinality k'"
    and wf: "\<And>c. c \<in> set cs \<Longrightarrow> wellFormed cardinality c"
    and wf': "\<And>c'. c' \<in> set cs' \<Longrightarrow> wellFormed cardinality c'"
    and above: "\<And>c j n. c \<in> set cs \<Longrightarrow> (j, n) \<in> set (scope c) \<Longrightarrow> k < j"
    and above': "\<And>c' j n. c' \<in> set cs' \<Longrightarrow> (j, n) \<in> set (scope c') \<Longrightarrow> k' < j"
    by force+
  show ?case
  proof (cases "k = k'")
    case True
    with len len' have eq: "length cs = length cs'"
      by simp
    have ih: "wellFormed cardinality (merge_nodes op c c')
        \<and> set (scope (merge_nodes op c c')) = set (scope c) \<union> set (scope c')"
      if "(c, c') \<in> set (zip cs cs')" for c c'
      using "4.IH"(1) [OF True that refl] wf wf' that
      by (auto dest: set_zip_leftD set_zip_rightD)
    have sub: "(\<Union>p \<in> set (zip cs cs'). set (scope (merge_nodes op (fst p) (snd p))))
        = (\<Union>c \<in> set cs. set (scope c)) \<union> (\<Union>c' \<in> set cs'. set (scope c'))"
      (is "?L = ?R")
    proof
      show "?L \<subseteq> ?R"
        using ih by (fastforce dest: set_zip_leftD set_zip_rightD)
      show "?R \<subseteq> ?L"
      proof
        fix e assume "e \<in> ?R"
        then consider c where "c \<in> set cs" "e \<in> set (scope c)"
          | c' where "c' \<in> set cs'" "e \<in> set (scope c')"
          by auto
        then show "e \<in> ?L"
        proof cases
          case 1
          from in_set_impl_in_set_zip1 [OF eq 1(1)] obtain c' where "(c, c') \<in> set (zip cs cs')"
            by blast
          with ih [OF this] 1(2) show ?thesis by force
        next
          case 2
          from in_set_impl_in_set_zip2 [OF eq 2(1)] obtain c where "(c, c') \<in> set (zip cs cs')"
            by blast
          with ih [OF this] 2(2) show ?thesis by force
        qed
      qed
    qed
    have children: "wellFormed cardinality (merge_nodes op c c')
        \<and> (\<forall>j \<in> fst ` set (scope (merge_nodes op c c')). k < j)"
      if "(c, c') \<in> set (zip cs cs')" for c c'
    proof -
      from that have "c \<in> set cs" "c' \<in> set cs'"
        by (auto dest: set_zip_leftD set_zip_rightD)
      with ih [OF that] above above' True show ?thesis
        by auto
    qed
    have "wellFormed cardinality (merge_nodes op ?t ?u)"
      using True eq len children by (fastforce simp: case_prod_beta)
    moreover have "set (scope (merge_nodes op ?t ?u)) = set (scope ?t) \<union> set (scope ?u)"
      using True eq sub by (auto simp: case_prod_beta)
    ultimately show ?thesis by blast
  next
    case False
    show ?thesis
    proof (cases "k < k'")
      case True
      have root': "k' \<le> j" if "j \<in> fst ` set (scope ?u)" for j
        using wellFormed_root_least [OF "4.prems"(2) that] .
      have ih: "wellFormed cardinality (merge_nodes op c ?u)
          \<and> set (scope (merge_nodes op c ?u)) = set (scope c) \<union> set (scope ?u)"
        if "c \<in> set cs" for c
        using "4.IH"(2) [OF False True that wf [OF that] "4.prems"(2)] .
      have children: "\<forall>j \<in> fst ` set (scope (merge_nodes op c ?u)). k < j"
        if "c \<in> set cs" for c
      proof
        fix j assume "j \<in> fst ` set (scope (merge_nodes op c ?u))"
        with ih [OF that] consider n where "(j, n) \<in> set (scope c)"
          | "j \<in> fst ` set (scope ?u)"
          by auto
        then show "k < j"
        proof cases
          case 1
          then show ?thesis using above [OF that] by blast
        next
          case 2
          from root' [OF 2] True show ?thesis by simp
        qed
      qed
      from len have ne: "cs \<noteq> []"
        by auto
      have sub: "(\<Union>c \<in> set cs. set (scope (merge_nodes op c ?u)))
          = (\<Union>c \<in> set cs. set (scope c)) \<union> set (scope ?u)"
        using ih ne by auto
      have "wellFormed cardinality (merge_nodes op ?t ?u)"
        using False True len ih children by simp
      moreover have "set (scope (merge_nodes op ?t ?u)) = set (scope ?t) \<union> set (scope ?u)"
        using False True sub by (simp add: insert_commute)
      ultimately show ?thesis by blast
    next
      case nless: False
      with False have gt: "k' < k"
        by simp
      have root: "k \<le> j" if "j \<in> fst ` set (scope ?t)" for j
        using wellFormed_root_least [OF "4.prems"(1) that] .
      have ih: "wellFormed cardinality (merge_nodes op ?t c')
          \<and> set (scope (merge_nodes op ?t c')) = set (scope ?t) \<union> set (scope c')"
        if "c' \<in> set cs'" for c'
        using "4.IH"(3) [OF False nless that "4.prems"(1) wf' [OF that]] .
      have children: "\<forall>j \<in> fst ` set (scope (merge_nodes op ?t c')). k' < j"
        if "c' \<in> set cs'" for c'
      proof
        fix j assume "j \<in> fst ` set (scope (merge_nodes op ?t c'))"
        with ih [OF that] consider "j \<in> fst ` set (scope ?t)"
          | n where "(j, n) \<in> set (scope c')"
          by auto
        then show "k' < j"
        proof cases
          case 1
          from root [OF 1] gt show ?thesis by simp
        next
          case 2
          then show ?thesis using above' [OF that] by blast
        qed
      qed
      from len' have ne: "cs' \<noteq> []"
        by auto
      have sub: "(\<Union>c' \<in> set cs'. set (scope (merge_nodes op ?t c')))
          = set (scope ?t) \<union> (\<Union>c' \<in> set cs'. set (scope c'))"
        using ih ne by auto
      have "wellFormed cardinality (merge_nodes op ?t ?u)"
        using False nless len' ih children by simp
      moreover have "set (scope (merge_nodes op ?t ?u)) = set (scope ?t) \<union> set (scope ?u)"
        using False nless sub by (simp add: insert_commute Un_commute Un_left_commute)
      ultimately show ?thesis by blast
    qed
  qed
qed

lemma leafAt_merge:
  "merge op t u = Inr r \<Longrightarrow> leafAt a t = Some v \<Longrightarrow> leafAt a u = Some w \<Longrightarrow>
   leafAt a r = Some (op v w)"
  by (auto simp: merge_def leafAt_merge_nodes split: if_splits)

lemma merge_wellFormed:
  assumes "wellFormed cardinality t" and "wellFormed cardinality u"
  shows "merge op t u = Inr (merge_nodes op t u)"
  using wellFormed_scopes_agree [OF assms] by (simp add: merge_def)

lemma fold_merges_Nil: "fold_merges start [] = Inr start"
  by (simp add: fold_merges_def)

lemma foldl_Inl:
  "foldl (\<lambda>acc t. case acc of Inl e \<Rightarrow> Inl e | Inr s \<Rightarrow> f s t) (Inl e) ts = Inl e"
  by (induction ts) simp_all

lemma fold_merges_Cons:
  "fold_merges start (t # ts)
     = (case Sum_add start t of Inl e \<Rightarrow> Inl e | Inr s \<Rightarrow> fold_merges s ts)"
  by (simp add: fold_merges_def foldl_Inl split: sum.splits)

lemma sum_loop_throwing_fold:
  "those (map cast_DCGaussianMixtureFactor fs) = Some ts \<Longrightarrow>
   sum_loop_throwing Sum_add acc fs = fold_merges acc ts"
proof (induction fs arbitrary: acc ts)
  case Nil
  then show ?case by (simp add: fold_merges_Nil)
next
  case (Cons f fs)
  from Cons.prems obtain t ts' where t: "cast_DCGaussianMixtureFactor f = Some t"
    and ts': "those (map cast_DCGaussianMixtureFactor fs) = Some ts'" and ts: "ts = t # ts'"
    by (auto split: option.splits)
  show ?case
    using t ts Cons.IH [OF ts'] by (simp add: fold_merges_Cons split: sum.splits)
qed

lemma fold_merges_wellFormed:
  assumes "wellFormed cardinality acc" and "\<forall>t \<in> set ts. wellFormed cardinality t"
  shows "\<exists>s. fold_merges acc ts = Inr s \<and> wellFormed cardinality s
    \<and> set (scope s) = set (scope acc) \<union> (\<Union>t \<in> set ts. set (scope t))
    \<and> (\<forall>a vs0 vs. leafAt a acc = Some vs0 \<longrightarrow> those (map (leafAt a) ts) = Some vs \<longrightarrow>
          leafAt a s = Some (vs0 @ vs))"
  using assms
proof (induction ts arbitrary: acc)
  case Nil
  then show ?case by (simp add: fold_merges_Nil)
next
  case (Cons t ts)
  let ?m = "merge_nodes (\<lambda>graph factor. graph @ [factor]) acc t"
  from Cons.prems have wft: "wellFormed cardinality t"
    and wfts: "\<forall>t \<in> set ts. wellFormed cardinality t"
    by simp_all
  have add: "Sum_add acc t = Inr ?m"
    unfolding Sum_add_def using Cons.prems(1) wft by (rule merge_wellFormed)
  from wellFormed_merge_nodes [OF Cons.prems(1) wft]
  have wfm: "wellFormed cardinality ?m"
    and scm: "set (scope ?m) = set (scope acc) \<union> set (scope t)"
    by blast+
  from Cons.IH [OF wfm wfts] obtain s where s: "fold_merges ?m ts = Inr s"
    and wfs: "wellFormed cardinality s"
    and scs: "set (scope s) = set (scope ?m) \<union> (\<Union>t \<in> set ts. set (scope t))"
    and leaf: "\<And>a vs0 vs. leafAt a ?m = Some vs0 \<Longrightarrow> those (map (leafAt a) ts) = Some vs \<Longrightarrow>
          leafAt a s = Some (vs0 @ vs)"
    by blast
  have "leafAt a s = Some (vs0 @ vs)"
    if acc: "leafAt a acc = Some vs0" and vs: "those (map (leafAt a) (t # ts)) = Some vs"
    for a vs0 vs
  proof -
    from vs obtain v vs' where v: "leafAt a t = Some v"
      and vs': "those (map (leafAt a) ts) = Some vs'" and eq: "vs = v # vs'"
      by (auto split: option.splits)
    from acc v have "leafAt a ?m = Some (vs0 @ [v])"
      by (rule leafAt_merge_nodes)
    from leaf [OF this vs'] eq show ?thesis by simp
  qed
  moreover have "fold_merges acc (t # ts) = Inr s"
    using add s by (simp add: fold_merges_Cons)
  moreover have "set (scope s) = set (scope acc) \<union> (\<Union>t \<in> set (t # ts). set (scope t))"
    using scs scm by auto
  ultimately show ?case
    using wfs by blast
qed

lemma those_leafAt:
  "\<forall>t \<in> set ts. wellFormed cardinality t \<Longrightarrow> \<forall>k. a k < cardinality k \<Longrightarrow>
   \<exists>vs. those (map (leafAt a) ts) = Some vs"
proof (induction ts)
  case Nil
  then show ?case by simp
next
  case (Cons t ts)
  from Cons.prems wellFormed_leafAt [of cardinality t a] obtain v where "leafAt a t = Some v"
    by auto
  moreover from Cons obtain vs where "those (map (leafAt a) ts) = Some vs"
    by auto
  ultimately show ?case by simp
qed

text \<open>
  C1. When every entry of the DC graph is a mixture factor, \<^verbatim>\<open>sum()\<close> is the fold of the
  merge, appending to the collection at the leaves, over their decision trees in insertion
  order, starting from the tree with no variable and one leaf, the empty collection; a
  merge that fails is the failure of \<^verbatim>\<open>sum()\<close>. When the trees are well formed for common
  cardinalities, \<^verbatim>\<open>sum()\<close> returns a tree; the tree is well formed, its scope is the union
  of the factors' scopes, and for every joint assignment its leaf is the collection of the
  factors' leaves for that assignment, in insertion order.
\<close>

theorem sum_is_fold_of_merges:
  assumes "those (map cast_DCGaussianMixtureFactor (dcGraph g)) = Some ts"
  shows "sum_graph_throwing Sum_default Sum_add g = fold_merges (Leaf []) ts
    \<and> ((\<forall>t \<in> set ts. wellFormed cardinality t) \<longrightarrow>
        (\<exists>s. sum_graph_throwing Sum_default Sum_add g = Inr s
           \<and> wellFormed cardinality s
           \<and> set (scope s) = (\<Union>t \<in> set ts. set (scope t))
           \<and> ((\<forall>k. a k < cardinality k) \<longrightarrow>
               (\<exists>vs. those (map (leafAt a) ts) = Some vs \<and> leafAt a s = Some vs))))"
proof (intro conjI impI)
  show eq: "sum_graph_throwing Sum_default Sum_add g = fold_merges (Leaf []) ts"
    using assms by (simp add: sum_graph_throwing_def Sum_default_def sum_loop_throwing_fold)
  assume wf: "\<forall>t \<in> set ts. wellFormed cardinality t"
  have "wellFormed cardinality (Leaf ([] :: 'a list))"
    by simp
  from fold_merges_wellFormed [OF this wf] obtain s where s: "fold_merges (Leaf []) ts = Inr s"
    and wfs: "wellFormed cardinality s"
    and scs: "set (scope s) = (\<Union>t \<in> set ts. set (scope t))"
    and leaf: "\<And>a vs. those (map (leafAt a) ts) = Some vs \<Longrightarrow> leafAt a s = Some vs"
    by fastforce
  have "\<exists>vs. those (map (leafAt a) ts) = Some vs \<and> leafAt a s = Some vs"
    if "\<forall>k. a k < cardinality k"
    using those_leafAt [OF wf that] leaf by blast
  with eq s wfs scs
  show "\<exists>s. sum_graph_throwing Sum_default Sum_add g = Inr s
           \<and> wellFormed cardinality s
           \<and> set (scope s) = (\<Union>t \<in> set ts. set (scope t))
           \<and> ((\<forall>k. a k < cardinality k) \<longrightarrow>
               (\<exists>vs. those (map (leafAt a) ts) = Some vs \<and> leafAt a s = Some vs))"
    by auto
qed

theorem sum_is_fold_of_merges_witness:
  "those (map cast_DCGaussianMixtureFactor (dcGraph twoMixtures)) = Some [treeA, treeB]
   \<and> wellFormed twoThree treeA \<and> wellFormed twoThree treeB
   \<and> (\<forall>k. secondAndThird k < twoThree k)
   \<and> sum_graph_throwing Sum_default Sum_add twoMixtures = Inr treeAB
   \<and> wellFormed twoThree treeAB
   \<and> set (scope treeAB) = {(0, 2), (1, 3)}
   \<and> leafAt secondAndThird treeAB = Some [11, 22]"
proof -
  have ts: "those (map cast_DCGaussianMixtureFactor (dcGraph twoMixtures))
      = Some [treeA, treeB]"
    by (simp add: twoMixtures_def HybridFactorGraph_of_def mixtureFactorA_def
        mixtureFactorB_def cast_DCGaussianMixtureFactor_def)
  have wfA: "wellFormed twoThree treeA" and wfB: "wellFormed twoThree treeB"
    by (simp_all add: treeA_def treeB_def twoThree_def)
  have valid: "\<forall>k. secondAndThird k < twoThree k"
    by (simp add: secondAndThird_def twoThree_def)
  have fold: "fold_merges (Leaf []) [treeA, treeB] = Inr treeAB"
    by (simp add: fold_merges_def Sum_add_def merge_def scopes_agree_def
        treeA_def treeB_def treeAB_def)
  have vs: "those (map (leafAt secondAndThird) [treeA, treeB]) = Some [11, 22]"
    by (simp add: treeA_def treeB_def secondAndThird_def)
  have sc: "(\<Union>t \<in> set [treeA, treeB]. set (scope t)) = {(0, 2), (1, 3)}"
    by (auto simp: treeA_def treeB_def)
  from sum_is_fold_of_merges [OF ts, of twoThree secondAndThird] wfA wfB valid fold
  obtain s where s: "sum_graph_throwing Sum_default Sum_add twoMixtures = Inr s"
    and eq: "sum_graph_throwing Sum_default Sum_add twoMixtures = Inr treeAB"
    and wfs: "wellFormed twoThree s"
    and scs: "set (scope s) = (\<Union>t \<in> set [treeA, treeB]. set (scope t))"
    and leaf: "\<exists>vs. those (map (leafAt secondAndThird) [treeA, treeB]) = Some vs
        \<and> leafAt secondAndThird s = Some vs"
    by auto
  from s eq have "s = treeAB"
    by simp
  with ts wfA wfB valid eq wfs scs sc leaf vs show ?thesis
    by auto
qed

text \<open>
  Three examples: an operator that always returns, the failure scenario of the spec (a DC
  factor that is not a mixture factor, between two mixture factors), and two mixture
  factors that disagree on the cardinality of their variable.
\<close>

lemma sum_graph_throwing_total:
  "sum_graph_throwing z (\<lambda>s m. Inr (add s m)) g = sum_graph z add g"
  by (simp add: sum_graph_throwing_def sum_graph_def sum_loop_throwing_total)

lemma sum_fails_example:
  "sum_graph_throwing Sum_default Sum_add
     (HybridFactorGraph_of [] [] [mixtureFactorA, dcFactorB, mixtureFactorB])
   = Inl UnsupportedFactorKind"
  by (simp add: sum_graph_throwing_def HybridFactorGraph_of_def mixtureFactorA_def
      dcFactorB_def cast_DCGaussianMixtureFactor_def Sum_default_def Sum_add_def merge_def
      scopes_agree_def treeA_def)

lemma sum_scope_inconsistency_example:
  "sum_graph_throwing Sum_default Sum_add
     (HybridFactorGraph_of [] [] [mixtureFactorA, mixtureFactorA3])
   = Inl ScopeInconsistency"
  by (simp add: sum_graph_throwing_def HybridFactorGraph_of_def mixtureFactorA_def
      mixtureFactorA3_def cast_DCGaussianMixtureFactor_def Sum_default_def Sum_add_def
      merge_def scopes_agree_def treeA_def treeA3_def)

end
